theory Spec2Isabelle
  imports Main "HOL-Library.Multiset" "HOL-Library.DAList"
begin

section \<open>The chat front end: data model\<close>

text \<open>
  The declarations of \<^verbatim>\<open>types/container.ts\<close>. The field \<^verbatim>\<open>status\<close> is declared as the
  union \<^verbatim>\<open>'running' | 'stopped' | 'paused'\<close>; at run time it is a JavaScript string, and
  the sidebar that reads its containers from the server also meets \<^verbatim>\<open>'exited'\<close>, so it is a
  string here. A \<^verbatim>\<open>Date\<close> is its number of milliseconds. Field names that clash with a
  constant of HOL or with each other carry a suffix.
\<close>

record Container =
  id_container :: string
  name :: string
  image_container :: string
  status :: string
  created :: string
  ports :: "string list option"

datatype MessageType = User | Bot

record ChatMessage =
  id_message :: string
  type_message :: MessageType
  content :: string
  timestamp :: nat

record ContainerLogs =
  containerId :: string
  messages :: "ChatMessage list"

text \<open>The mock data the page starts from.\<close>

definition mockContainers :: "Container list" where
  "mockContainers =
    [\<lparr>id_container = ''container-1'', name = ''web-app'', image_container = ''nginx:latest'',
      status = ''running'', created = ''2024-01-15T10:30:00Z'',
      ports = Some [''80:8080'', ''443:8443'']\<rparr>,
     \<lparr>id_container = ''container-2'', name = ''api-server'', image_container = ''node:18-alpine'',
      status = ''running'', created = ''2024-01-15T11:00:00Z'', ports = Some [''3000:3000'']\<rparr>,
     \<lparr>id_container = ''container-3'', name = ''database'', image_container = ''postgres:15'',
      status = ''running'', created = ''2024-01-15T09:45:00Z'', ports = Some [''5432:5432'']\<rparr>,
     \<lparr>id_container = ''container-4'', name = ''redis-cache'', image_container = ''redis:7-alpine'',
      status = ''paused'', created = ''2024-01-15T12:15:00Z'', ports = Some [''6379:6379'']\<rparr>,
     \<lparr>id_container = ''container-5'', name = ''worker-queue'',
      image_container = ''python:3.11-slim'', status = ''stopped'',
      created = ''2024-01-15T08:30:00Z'', ports = None\<rparr>]"

definition mockChatLogs :: "ContainerLogs list" where
  "mockChatLogs = []"

section \<open>The page \<^verbatim>\<open>Index.tsx\<close>\<close>

text \<open>
  \<^verbatim>\<open>handleSendMessage\<close> reads the clock four times: \<^verbatim>\<open>Date.now()\<close> for the identifier of
  the user message, \<^verbatim>\<open>new Date()\<close> for its timestamp, \<^verbatim>\<open>Date.now()\<close> for the identifier
  of the bot message and \<^verbatim>\<open>Date.now() + 1000\<close> for its timestamp. The four readings are
  the input \<open>clock\<close>.
\<close>

record clock =
  now_user_id :: nat
  now_user_timestamp :: nat
  now_bot_id :: nat
  now_bot_timestamp :: nat

text \<open>An example reading of the clock, for the concrete instances below.\<close>

definition example_clock :: clock where
  "example_clock = \<lparr>now_user_id = 1705312200000, now_user_timestamp = 1705312200000,
     now_bot_id = 1705312200001, now_bot_timestamp = 1705312200001\<rparr>"

text \<open>A number inside a template literal is printed in decimal.\<close>

definition digit_char :: "nat \<Rightarrow> char" where
  "digit_char d = char_of (48 + d)"

function show_nat :: "nat \<Rightarrow> string" where
  "show_nat n = (if n < 10 then [digit_char n] else show_nat (n div 10) @ [digit_char (n mod 10)])"
  by pat_completeness auto
termination
  by (relation "measure (\<lambda>n. n)") auto

declare show_nat.simps [simp del]

definition userMessage :: "clock \<Rightarrow> string \<Rightarrow> ChatMessage" where
  "userMessage clk messageContent =
    \<lparr>id_message = ''msg-'' @ show_nat (now_user_id clk) @ ''-user'',
     type_message = User,
     content = messageContent,
     timestamp = now_user_timestamp clk\<rparr>"

definition mock_response :: string where
  "mock_response = [CHR 0x0A, CHR 0x0A] @
    ''This is a mock response. In a real application, this would be processed by your backend and return actual container logs or execute commands.''"

definition botMessage :: "clock \<Rightarrow> string \<Rightarrow> ChatMessage" where
  "botMessage clk messageContent =
    \<lparr>id_message = ''msg-'' @ show_nat (now_bot_id clk) @ ''-bot'',
     type_message = Bot,
     content = ''Received: '' @ [CHR 0x22] @ messageContent @ [CHR 0x22] @ mock_response,
     timestamp = now_bot_timestamp clk + 1000\<rparr>"

text \<open>\<^verbatim>\<open>Array.prototype.findIndex\<close>: the first index whose element passes, or \<open>-1\<close>.\<close>

fun findIndex :: "('a \<Rightarrow> bool) \<Rightarrow> 'a list \<Rightarrow> int" where
  "findIndex P [] = - 1"
| "findIndex P (x # xs) =
    (if P x then 0 else (let i = findIndex P xs in if i < 0 then - 1 else i + 1))"

text \<open>
  The state is \<^verbatim>\<open>chatLogs\<close>; \<^verbatim>\<open>handleSendMessage\<close> returns at once when no container is
  selected, and otherwise hands the updater below to \<^verbatim>\<open>setChatLogs\<close>, which applies it to
  the previous state \<open>prev\<close>.
\<close>

definition handleSendMessage ::
  "Container option \<Rightarrow> clock \<Rightarrow> string \<Rightarrow> ContainerLogs list \<Rightarrow> ContainerLogs list" where
  "handleSendMessage selectedContainer clk messageContent prev =
    (case selectedContainer of
       None \<Rightarrow> prev
     | Some sel \<Rightarrow>
        (let existingLogIndex = findIndex (\<lambda>log. containerId log = id_container sel) prev in
         if existingLogIndex \<ge> 0 then
           prev[nat existingLogIndex :=
             (prev ! nat existingLogIndex)
               \<lparr>messages := messages (prev ! nat existingLogIndex)
                   @ [userMessage clk messageContent, botMessage clk messageContent]\<rparr>]
         else
           prev @ [\<lparr>containerId = id_container sel,
                    messages = [userMessage clk messageContent, botMessage clk messageContent]\<rparr>]))"

text \<open>
  \<^verbatim>\<open>currentMessages\<close>: \<^verbatim>\<open>find\<close> gives the first entry that passes or \<^verbatim>\<open>undefined\<close>, and
  \<^verbatim>\<open>?.messages || []\<close> turns \<^verbatim>\<open>undefined\<close> into the empty list (an array, even an empty
  one, is truthy and is kept).
\<close>

definition currentMessages :: "Container option \<Rightarrow> ContainerLogs list \<Rightarrow> ChatMessage list" where
  "currentMessages selectedContainer chatLogs =
    (case selectedContainer of
       None \<Rightarrow> []
     | Some sel \<Rightarrow>
        (case find (\<lambda>log. containerId log = id_container sel) chatLogs of
           None \<Rightarrow> []
         | Some log \<Rightarrow> messages log))"

section \<open>The sidebar \<^verbatim>\<open>ContainerSidebar.tsx\<close>\<close>

definition runningContainers :: "Container list \<Rightarrow> Container list" where
  "runningContainers containers = filter (\<lambda>container. status container = ''running'') containers"

definition stoppedContainers :: "Container list \<Rightarrow> Container list" where
  "stoppedContainers containers = filter (\<lambda>container. status container \<noteq> ''running'') containers"

section \<open>The documented front-end integration\<close>

text \<open>
  \<^verbatim>\<open>queryLogs\<close> of the integration guide posts a JSON body to \<^verbatim>\<open>/api/logs/query\<close>. The body
  is the record below; \<^verbatim>\<open>k\<close> is optional in the contract, so it is an option here, and the
  guide's call always sets it.
\<close>

record QueryRequest =
  container_id_req :: string
  question_req :: string
  k_req :: "int option"

definition queryLogs :: "string \<Rightarrow> string \<Rightarrow> QueryRequest" where
  "queryLogs cid q = \<lparr>container_id_req = cid, question_req = q, k_req = Some 8\<rparr>"

text \<open>The retrieval options and their documented values (\<^verbatim>\<open>retriever_config\<close> of the README).\<close>

record retriever_config =
  use_reranking :: bool
  initial_k :: int
  final_k :: int

definition default_retriever_config :: retriever_config where
  "default_retriever_config = \<lparr>use_reranking = True, initial_k = 20, final_k = 8\<rparr>"

text \<open>
  Modelled from the spec: the request validation of the query endpoint, whose code is not
  among the sources. The contract reads \<^verbatim>\<open>k?: integer (default 8, 1 \<le> k \<le> initial_k)\<close>: an
  absent \<^verbatim>\<open>k\<close> stands for \<^verbatim>\<open>final_k\<close>, and a request is accepted when the count lies
  between 1 and \<^verbatim>\<open>initial_k\<close>.
\<close>

definition requested_k :: "retriever_config \<Rightarrow> QueryRequest \<Rightarrow> int" where
  "requested_k cfg req = (case k_req req of None \<Rightarrow> final_k cfg | Some n \<Rightarrow> n)"

text \<open>
  Modelled from the spec: the bound on the requested count, \<^verbatim>\<open>1 \<le> k \<le> initial_k\<close> (the
  endpoint's code is not among the sources); a count outside it is a validation error.
\<close>

definition k_in_bounds :: "retriever_config \<Rightarrow> QueryRequest \<Rightarrow> bool" where
  "k_in_bounds cfg req = (1 \<le> requested_k cfg req \<and> requested_k cfg req \<le> initial_k cfg)"

section \<open>The ingestion pipeline: data model and Log Chunker\<close>

text \<open>
  The back end (watcher, streamer, vector store, retriever) is described by the design
  document and the README only; its definitions below follow the design's words.
\<close>

text \<open>
  Modelled from the spec: the detected level of a log line, whose declaration (in the
  Python back end) is not among the sources.
\<close>

datatype level = ERROR | WARN | INFO | DEBUG | UNKNOWN

text \<open>
  Modelled from the spec: a log line of the data model, whose declaration is not among the
  sources: container identifier, sequence number (per container), timestamp, raw text
  and detected level.
\<close>

record LogLine =
  container_line :: string
  seq_line :: nat
  time_line :: nat
  text_line :: string
  level_line :: level

text \<open>
  Modelled from the spec: a chunk of the data model, whose declaration is not among the
  sources: container identifier, chunk sequence number, concatenated text, first and last
  contained line sequence numbers, time range, aggregate severity score and source line
  count.
\<close>

record Chunk =
  container_chunk :: string
  seq_chunk :: nat
  text_chunk :: string
  first_seq :: nat
  last_seq :: nat
  time_range :: "nat \<times> nat"
  severity :: nat
  line_count :: nat

text \<open>The chunking options and their documented values (\<^verbatim>\<open>chunk_config\<close> of the README).\<close>

record chunk_config =
  max_chunk_size :: nat
  min_chunk_size :: nat
  max_lines :: nat
  timeout_seconds :: nat
  overlap_chars :: nat

definition default_chunk_config :: chunk_config where
  "default_chunk_config = \<lparr>max_chunk_size = 1500, min_chunk_size = 200, max_lines = 25,
     timeout_seconds = 30, overlap_chars = 200\<rparr>"

text \<open>
  Modelled from the spec: the severity score of a chunk, whose code is not among the
  sources. It is the maximum severity of any contained line, with
  \<^verbatim>\<open>ERROR > WARN > INFO > DEBUG > UNKNOWN\<close>; the ranks 4 to 0 stand for that order.
\<close>

fun level_rank :: "level \<Rightarrow> nat" where
  "level_rank ERROR = 4"
| "level_rank WARN = 3"
| "level_rank INFO = 2"
| "level_rank DEBUG = 1"
| "level_rank UNKNOWN = 0"

text \<open>
  Modelled from the spec: the aggregate severity score of the buffered lines (the code of
  the streamer is not among the sources): the maximum rank of any contained line, 0 for
  no line.
\<close>

definition severity_score :: "LogLine list \<Rightarrow> nat" where
  "severity_score ls = fold (\<lambda>l m. max (level_rank (level_line l)) m) ls 0"

text \<open>
  Modelled from the spec: the state of the Log Chunker for one container, whose code
  (the streamer) is not among the sources. Lines are appended to an in-flight buffer in
  arrival order; the text of the immediately preceding chunk of the container is kept
  for the overlap (none before the first chunk); chunks are numbered in sequence.
\<close>

record chunker =
  buffer :: "LogLine list"
  previous_text :: "string option"
  next_seq :: nat

text \<open>
  Modelled from the spec: the chunker of a container that has emitted nothing yet (the
  streamer's code is not among the sources): an empty buffer and no preceding chunk.
\<close>

definition initial_chunker :: chunker where
  "initial_chunker = \<lparr>buffer = [], previous_text = None, next_seq = 0\<rparr>"

text \<open>
  Modelled from the spec: the concatenated text of the buffered lines, in arrival order
  (the streamer's code is not among the sources).
\<close>

definition buffer_text :: "LogLine list \<Rightarrow> string" where
  "buffer_text ls = concat (map text_line ls)"

text \<open>
  Modelled from the spec: the overlap prefix (the streamer's code is not among the
  sources). On emission the chunk's text is prefixed with up to \<^verbatim>\<open>overlap_chars\<close> of
  trailing text from the immediately preceding chunk, none for the first chunk of a
  container.
\<close>

definition overlap_prefix :: "chunk_config \<Rightarrow> string option \<Rightarrow> string" where
  "overlap_prefix cfg prev =
    (case prev of None \<Rightarrow> [] | Some t \<Rightarrow> drop (length t - overlap_chars cfg) t)"

text \<open>
  Modelled from the spec: the four causes of an emission (the streamer's code is not among
  the sources): the size ceiling, the line-count ceiling, the timeout, and the forced
  flush when the container stops.
\<close>

datatype trigger = Size | LineCount | Timeout | ForcedFlush

text \<open>
  Modelled from the spec: the emitted chunk (the streamer's code is not among the
  sources). Its fields are those of the data model; it is built from a buffer that holds
  a line, and its time range runs from the first to the last buffered line.
\<close>

definition make_chunk :: "chunk_config \<Rightarrow> string \<Rightarrow> chunker \<Rightarrow> Chunk" where
  "make_chunk cfg cid st =
    \<lparr>container_chunk = cid,
     seq_chunk = next_seq st,
     text_chunk = overlap_prefix cfg (previous_text st) @ buffer_text (buffer st),
     first_seq = seq_line (hd (buffer st)),
     last_seq = seq_line (last (buffer st)),
     time_range = (time_line (hd (buffer st)), time_line (last (buffer st))),
     severity = severity_score (buffer st),
     line_count = length (buffer st)\<rparr>"

text \<open>
  Modelled from the spec: the emission (the streamer's code is not among the sources). The
  chunk is handed on with its cause, the buffer is emptied, and the chunk's text is kept
  for the overlap of the next chunk.
\<close>

definition emit ::
  "chunk_config \<Rightarrow> string \<Rightarrow> trigger \<Rightarrow> chunker \<Rightarrow> chunker \<times> (trigger \<times> Chunk) list" where
  "emit cfg cid trg st =
    (\<lparr>buffer = [], previous_text = Some (text_chunk (make_chunk cfg cid st)),
      next_seq = Suc (next_seq st)\<rparr>,
     [(trg, make_chunk cfg cid st)])"

text \<open>
  Modelled from the spec: the timeout trigger (the streamer's code is not among the
  sources): the time elapsed since the buffer's first line exceeds \<^verbatim>\<open>timeout_seconds\<close>.
\<close>

definition timed_out :: "chunk_config \<Rightarrow> nat \<Rightarrow> chunker \<Rightarrow> bool" where
  "timed_out cfg now st =
    (buffer st \<noteq> [] \<and> timeout_seconds cfg < now - time_line (hd (buffer st)))"

text \<open>
  Modelled from the spec: the character floor (the streamer's code is not among the
  sources). \<^verbatim>\<open>min_chunk_size\<close> is the floor for a natural emission: the buffer has reached
  it when its text has at least that many characters.
\<close>

definition reached_floor :: "chunk_config \<Rightarrow> chunker \<Rightarrow> bool" where
  "reached_floor cfg st = (min_chunk_size cfg \<le> length (buffer_text (buffer st)))"

text \<open>
  Modelled from the spec: the natural emission triggers (the streamer's code is not among
  the sources). A chunk is emitted when the buffer length reaches \<^verbatim>\<open>max_chunk_size\<close>,
  when the buffer reaches \<^verbatim>\<open>max_lines\<close>, or when the timeout has passed; when several
  fire together the first in this order wins. None of them emits an empty buffer or a
  buffer below the floor \<^verbatim>\<open>min_chunk_size\<close>; only the forced flush on stop does the
  latter.
\<close>

definition fired :: "chunk_config \<Rightarrow> nat \<Rightarrow> chunker \<Rightarrow> trigger option" where
  "fired cfg now st =
    (if buffer st = [] \<or> \<not> reached_floor cfg st then None
     else if max_chunk_size cfg \<le> length (buffer_text (buffer st)) then Some Size
     else if max_lines cfg \<le> length (buffer st) then Some LineCount
     else if timed_out cfg now st then Some Timeout
     else None)"

text \<open>
  Modelled from the spec: what reaches the chunker of a container (the watcher's and the
  streamer's code are not among the sources): a line of its stream arrives, the timer of
  its task reports the time, or the container stops.
\<close>

datatype event = Line LogLine | Tick string nat | Stop string

text \<open>Modelled from the spec: the container an event belongs to (as above).\<close>

fun event_container :: "event \<Rightarrow> string" where
  "event_container (Line l) = container_line l"
| "event_container (Tick cid now) = cid"
| "event_container (Stop cid) = cid"

text \<open>
  Modelled from the spec: one step of the chunker of a container (the streamer's code is
  not among the sources). A line is appended to the buffer and the triggers are checked
  after the append, at the line's timestamp; a report of the timer has the triggers
  checked at the reported time; a stop forces a flush of a buffer that holds something,
  whatever its length.
\<close>

fun chunker_step ::
  "chunk_config \<Rightarrow> chunker \<Rightarrow> event \<Rightarrow> chunker \<times> (trigger \<times> Chunk) list" where
  "chunker_step cfg st (Line l) =
    (case fired cfg (time_line l) (st\<lparr>buffer := buffer st @ [l]\<rparr>) of
       None \<Rightarrow> (st\<lparr>buffer := buffer st @ [l]\<rparr>, [])
     | Some trg \<Rightarrow> emit cfg (container_line l) trg (st\<lparr>buffer := buffer st @ [l]\<rparr>))"
| "chunker_step cfg st (Tick cid now) =
    (case fired cfg now st of
       None \<Rightarrow> (st, [])
     | Some trg \<Rightarrow> emit cfg cid trg st)"
| "chunker_step cfg st (Stop cid) =
    (if buffer st = [] then (st, []) else emit cfg cid ForcedFlush st)"

text \<open>
  Modelled from the spec: the ingestion of an event sequence (the watcher's code is not
  among the sources): one chunker per container, each fed the events of its own container
  in arrival order; the emitted chunks are collected in emission order.
\<close>

fun ingest_from ::
  "chunk_config \<Rightarrow> (string \<Rightarrow> chunker) \<Rightarrow> event list \<Rightarrow>
     (string \<Rightarrow> chunker) \<times> (trigger \<times> Chunk) list" where
  "ingest_from cfg sts [] = (sts, [])"
| "ingest_from cfg sts (ev # evs) =
    (case chunker_step cfg (sts (event_container ev)) ev of
       (st', new) \<Rightarrow>
        (case ingest_from cfg (sts (event_container ev := st')) evs of
           (sts', rest) \<Rightarrow> (sts', new @ rest)))"

text \<open>
  Modelled from the spec: the ingestion from the start, when no container has a chunker
  state yet (the watcher's code is not among the sources).
\<close>

definition ingest ::
  "chunk_config \<Rightarrow> event list \<Rightarrow> (string \<Rightarrow> chunker) \<times> (trigger \<times> Chunk) list" where
  "ingest cfg evs = ingest_from cfg (\<lambda>cid. initial_chunker) evs"

text \<open>The chunks of one container among those emitted, in emission order.\<close>

definition chunks_of :: "string \<Rightarrow> (trigger \<times> Chunk) list \<Rightarrow> Chunk list" where
  "chunks_of cid out = filter (\<lambda>c. container_chunk c = cid) (map snd out)"

text \<open>The line stream of one container among the events, in arrival order.\<close>

fun lines_of :: "string \<Rightarrow> event list \<Rightarrow> LogLine list" where
  "lines_of cid [] = []"
| "lines_of cid (Line l # evs) =
    (if container_line l = cid then l # lines_of cid evs else lines_of cid evs)"
| "lines_of cid (ev # evs) = lines_of cid evs"

text \<open>
  Modelled from the spec: the non-overlap text of the successive chunks of a container
  (the streamer's code is not among the sources). The prefix a chunk took from the chunk
  before it has the length of \<open>overlap_prefix\<close> of that chunk's text, and is cut off.
\<close>

fun non_overlap_texts :: "chunk_config \<Rightarrow> string option \<Rightarrow> Chunk list \<Rightarrow> string list" where
  "non_overlap_texts cfg prev [] = []"
| "non_overlap_texts cfg prev (c # cs) =
    drop (length (overlap_prefix cfg prev)) (text_chunk c)
      # non_overlap_texts cfg (Some (text_chunk c)) cs"

text \<open>
  Modelled from the spec: the concatenation of the successive chunks' non-overlap text.
\<close>

definition reconstruct :: "chunk_config \<Rightarrow> Chunk list \<Rightarrow> string" where
  "reconstruct cfg cs = concat (non_overlap_texts cfg None cs)"

section \<open>The Vector Index\<close>

text \<open>
  Modelled from the spec: the three collections of the index, whose code (the vector
  store) is not among the sources.
\<close>

datatype collection = Exact | Approximate | Error

text \<open>
  Modelled from the spec: an indexed chunk of the data model (the vector store's code is
  not among the sources): a chunk plus its embedding vector and the collections it was
  written to. The type of the embedding vectors is left open (\<open>'e\<close>).
\<close>

record 'e IndexedChunk =
  chunk_of :: Chunk
  embedding :: 'e
  written_to :: "collection list"

text \<open>
  Modelled from the spec: the index, three logically separate collections (the vector
  store's code is not among the sources).
\<close>

record 'e VectorIndex =
  exact :: "'e IndexedChunk list"
  approximate :: "'e IndexedChunk list"
  error :: "'e IndexedChunk list"

text \<open>Modelled from the spec: the index before any upsert (as above).\<close>

definition empty_index :: "'e VectorIndex" where
  "empty_index = \<lparr>exact = [], approximate = [], error = []\<rparr>"

text \<open>
  Modelled from the spec: the identity of a chunk, its container and its chunk sequence
  number (the vector store's code is not among the sources).
\<close>

definition chunk_id :: "Chunk \<Rightarrow> string \<times> nat" where
  "chunk_id c = (container_chunk c, seq_chunk c)"

text \<open>
  Modelled from the spec: writing into one collection (the vector store's code is not
  among the sources). The operation is an upsert: the entry of the same chunk is
  replaced, a new chunk is added.
\<close>

fun write_entry :: "'e IndexedChunk \<Rightarrow> 'e IndexedChunk list \<Rightarrow> 'e IndexedChunk list" where
  "write_entry ic [] = [ic]"
| "write_entry ic (x # xs) =
    (if chunk_id (chunk_of x) = chunk_id (chunk_of ic) then ic # xs else x # write_entry ic xs)"

text \<open>
  Modelled from the spec: the severity of a chunk qualifies for the error collection when
  its severity score exceeds the error threshold (the vector store's code is not among
  the sources).
\<close>

definition qualifies :: "nat \<Rightarrow> Chunk \<Rightarrow> bool" where
  "qualifies threshold c = (threshold < severity c)"

text \<open>
  Modelled from the spec: the indexed chunk an upsert stores, with the collections it is
  written to (the vector store's code is not among the sources).
\<close>

definition indexed :: "nat \<Rightarrow> Chunk \<Rightarrow> 'e \<Rightarrow> 'e IndexedChunk" where
  "indexed threshold c e =
    \<lparr>chunk_of = c, embedding = e,
     written_to = (if qualifies threshold c then [Exact, Approximate, Error]
                   else [Exact, Approximate])\<rparr>"

text \<open>
  Modelled from the spec: \<^verbatim>\<open>upsert(chunk, embedding)\<close> (the vector store's code is not among
  the sources) writes into exact and approximate, and additionally into error if the
  severity qualifies.
\<close>

definition upsert :: "nat \<Rightarrow> Chunk \<Rightarrow> 'e \<Rightarrow> 'e VectorIndex \<Rightarrow> 'e VectorIndex" where
  "upsert threshold c e idx =
    \<lparr>exact = write_entry (indexed threshold c e) (exact idx),
     approximate = write_entry (indexed threshold c e) (approximate idx),
     error = (if qualifies threshold c then write_entry (indexed threshold c e) (error idx)
              else error idx)\<rparr>"

text \<open>Modelled from the spec: a sequence of upserts, one after the other (as above).\<close>

fun upsert_all :: "nat \<Rightarrow> (Chunk \<times> 'e) list \<Rightarrow> 'e VectorIndex \<Rightarrow> 'e VectorIndex" where
  "upsert_all threshold [] idx = idx"
| "upsert_all threshold ((c, e) # rest) idx = upsert_all threshold rest (upsert threshold c e idx)"

text \<open>Modelled from the spec: the content of one collection of the index (as above).\<close>

definition entries :: "'e VectorIndex \<Rightarrow> collection \<Rightarrow> 'e IndexedChunk list" where
  "entries idx coll = (case coll of Exact \<Rightarrow> exact idx | Approximate \<Rightarrow> approximate idx
     | Error \<Rightarrow> error idx)"

text \<open>
  Modelled from the spec: ranking by descending similarity (the vector store's code is not
  among the sources). The type of the scores is left open; entries of equal score keep
  their order.
\<close>

fun insert_desc :: "'a \<times> 's::linorder \<Rightarrow> ('a \<times> 's) list \<Rightarrow> ('a \<times> 's) list" where
  "insert_desc x [] = [x]"
| "insert_desc x (y # ys) = (if snd y \<le> snd x then x # y # ys else y # insert_desc x ys)"

text \<open>Modelled from the spec: the ranking of a whole list (as above).\<close>

definition rank_desc :: "('a \<times> 's::linorder) list \<Rightarrow> ('a \<times> 's) list" where
  "rank_desc xs = foldr insert_desc xs []"

text \<open>
  Modelled from the spec: \<^verbatim>\<open>search(collection, queryEmbedding, containerFilter, limit)\<close>
  (the vector store's code is not among the sources) returns up to \<^verbatim>\<open>limit\<close> chunk
  references ranked by descending similarity, restricted to the given container. The
  similarity \<open>sim\<close> is left open.
\<close>

definition search ::
  "('e \<Rightarrow> 'e \<Rightarrow> 's::linorder) \<Rightarrow> 'e VectorIndex \<Rightarrow> collection \<Rightarrow> 'e \<Rightarrow> string \<Rightarrow> nat \<Rightarrow>
     ('e IndexedChunk \<times> 's) list" where
  "search sim idx coll queryEmbedding containerFilter limit =
    take limit (rank_desc (map (\<lambda>ic. (ic, sim queryEmbedding (embedding ic)))
      (filter (\<lambda>ic. container_chunk (chunk_of ic) = containerFilter) (entries idx coll))))"

section \<open>The Retriever\<close>

text \<open>
  Modelled from the spec: a candidate of the data model (the retriever's code is not among
  the sources): a chunk reference plus a similarity score (stage 1) and, after stage 2, a
  relevance score.
\<close>

record ('e, 's) Candidate =
  chunk_ref :: "'e IndexedChunk"
  similarity :: 's
  relevance :: "'s option"

text \<open>
  Modelled from the spec: the provider boundary (the adapter's code is not among the
  sources): \<^verbatim>\<open>embed(text)\<close>, \<^verbatim>\<open>rerank(query, [text])\<close> and \<^verbatim>\<open>generate(question, context)\<close>.
  Each call either gives its result or fails for good (\<open>None\<close>, after the retries of the
  adapter). The reranking capability answers with an ordered subset of the texts it was
  given, with scores: the positions of the chosen texts in that list, each once, in
  relevance order, each with its score.
\<close>

record ('e, 's) providers =
  embed :: "string \<Rightarrow> 'e option"
  rerank :: "string \<Rightarrow> string list \<Rightarrow> (nat, 's) alist option"
  generate :: "string \<Rightarrow> string \<Rightarrow> string option"

text \<open>
  Modelled from the spec: the failures of a query that the retrieval can report (the
  retriever's code is not among the sources).
\<close>

datatype failure = ValidationError | ProviderError

text \<open>
  Modelled from the spec: the response of the data model (the retriever's code is not
  among the sources): the generated answer and the ordered list of cited chunk
  references.
\<close>

record ('e, 's) QueryResponse =
  answer :: string
  sources :: "('e, 's) Candidate list"

text \<open>
  Modelled from the spec: stage 1 of the Retriever (its code is not among the sources),
  the vector search of the approximate
  collection (or exact, if requested) for the top \<^verbatim>\<open>initial_k\<close> candidates scoped to the
  request's container.
\<close>

definition stage1 ::
  "retriever_config \<Rightarrow> ('e \<Rightarrow> 'e \<Rightarrow> 's::linorder) \<Rightarrow> 'e VectorIndex \<Rightarrow> collection \<Rightarrow> 'e \<Rightarrow>
     string \<Rightarrow> ('e, 's) Candidate list" where
  "stage1 cfg sim idx coll q cid =
    map (\<lambda>(ic, s). \<lparr>chunk_ref = ic, similarity = s, relevance = None\<rparr>)
      (search sim idx coll q cid (nat (initial_k cfg)))"

text \<open>Modelled from the spec: the text of a candidate's chunk (the retriever's code is not among the sources).\<close>

definition candidate_text :: "('e, 's) Candidate \<Rightarrow> string" where
  "candidate_text c = text_chunk (chunk_of (chunk_ref c))"

text \<open>
  Modelled from the spec: the candidates the reranking capability selected, in its order,
  each with its relevance score (the retriever's code is not among the sources). A
  position outside the candidate list is ignored.
\<close>

definition pick :: "('e, 's) Candidate list \<Rightarrow> (nat, 's) alist \<Rightarrow> ('e, 's) Candidate list" where
  "pick cands picks =
    map (\<lambda>(i, r). (cands ! i)\<lparr>relevance := Some r\<rparr>)
      (filter (\<lambda>(i, r). i < length cands) (DAList.impl_of picks))"

text \<open>
  Modelled from the spec: stage 2 of the Retriever (its code is not among the sources).
  The question and the candidates' text go to the reranking capability; its
  relevance-ordered subset is truncated to the requested count. If reranking fails or is
  disabled, the stage-1 ordering is kept.
\<close>

definition stage2 ::
  "retriever_config \<Rightarrow> ('e, 's) providers \<Rightarrow> string \<Rightarrow> nat \<Rightarrow> ('e, 's) Candidate list \<Rightarrow>
     ('e, 's) Candidate list" where
  "stage2 cfg P q_text n cands =
    (if use_reranking cfg then
       (case rerank P q_text (map candidate_text cands) of
          None \<Rightarrow> take n cands
        | Some picks \<Rightarrow> take n (pick cands picks))
     else take n cands)"

text \<open>
  Modelled from the spec: the retrieval of a request (the retriever's code is not among
  the sources). A count out of bounds is a
  validation error; without an embedding of the question the request fails; otherwise
  the two stages run.
\<close>

definition retrieve ::
  "retriever_config \<Rightarrow> ('e \<Rightarrow> 'e \<Rightarrow> 's::linorder) \<Rightarrow> ('e, 's) providers \<Rightarrow> collection \<Rightarrow>
     'e VectorIndex \<Rightarrow> QueryRequest \<Rightarrow> failure + ('e, 's) Candidate list" where
  "retrieve cfg sim P coll idx req =
    (if \<not> k_in_bounds cfg req then Inl ValidationError
     else
       (case embed P (question_req req) of
          None \<Rightarrow> Inl ProviderError
        | Some q \<Rightarrow>
            Inr (stage2 cfg P (question_req req) (nat (requested_k cfg req))
                  (stage1 cfg sim idx coll q (container_id_req req)))))"

text \<open>
  Modelled from the spec: the context budget (the retriever's code is not among the
  sources). While the concatenated context exceeds the budget, the chunk of lowest
  relevance is dropped.
\<close>

function fit_budget :: "nat \<Rightarrow> ('e, 's) Candidate list \<Rightarrow> ('e, 's) Candidate list" where
  "fit_budget budget cs =
    (if cs = [] \<or> length (concat (map candidate_text cs)) \<le> budget then cs
     else fit_budget budget (butlast cs))"
  by pat_completeness auto
termination
  by (relation "measure (\<lambda>(budget, cs). length cs)") auto

declare fit_budget.simps [simp del]

text \<open>
  Modelled from the spec: the context of the generation call (the retriever's code is not
  among the sources): the chunks kept, in the order of their time range.
\<close>

definition context_text :: "('e, 's) Candidate list \<Rightarrow> string" where
  "context_text cs =
    concat (map candidate_text (sort_key (\<lambda>c. fst (time_range (chunk_of (chunk_ref c)))) cs))"

text \<open>
  Modelled from the spec: the answer for a container without indexed chunks, which states
  that no grounding was found; the design leaves its wording open.
\<close>

definition no_grounding_answer :: string where
  "no_grounding_answer = ''No grounding was found in the logs of this container.''"

text \<open>
  Modelled from the spec: the answer to a request (the retriever's code is not among the
  sources). Without candidates the source list is empty and the answer says so; otherwise
  the generation capability is called with the question and the assembled context, and
  the chunks kept are cited in relevance order.
\<close>

definition answer_query ::
  "retriever_config \<Rightarrow> ('e \<Rightarrow> 'e \<Rightarrow> 's::linorder) \<Rightarrow> ('e, 's) providers \<Rightarrow> collection \<Rightarrow> nat \<Rightarrow>
     'e VectorIndex \<Rightarrow> QueryRequest \<Rightarrow> failure + ('e, 's) QueryResponse" where
  "answer_query cfg sim P coll budget idx req =
    (case retrieve cfg sim P coll idx req of
       Inl f \<Rightarrow> Inl f
     | Inr [] \<Rightarrow> Inr \<lparr>answer = no_grounding_answer, sources = []\<rparr>
     | Inr (c # cs) \<Rightarrow>
        (case generate P (question_req req) (context_text (fit_budget budget (c # cs))) of
           None \<Rightarrow> Inl ProviderError
         | Some a \<Rightarrow> Inr \<lparr>answer = a, sources = fit_budget budget (c # cs)\<rparr>))"

text \<open>
  An example stream, for the concrete instances below: two containers under a small
  configuration. The floor of 5 characters holds back the timeout of container \<^verbatim>\<open>b\<close>,
  whose buffer of 2 characters is flushed when it stops.
\<close>

definition example_line :: "string \<Rightarrow> nat \<Rightarrow> nat \<Rightarrow> string \<Rightarrow> level \<Rightarrow> LogLine" where
  "example_line cid n t s lv =
    \<lparr>container_line = cid, seq_line = n, time_line = t, text_line = s, level_line = lv\<rparr>"

definition example_config :: chunk_config where
  "example_config = \<lparr>max_chunk_size = 20, min_chunk_size = 5, max_lines = 3,
     timeout_seconds = 30, overlap_chars = 4\<rparr>"

definition example_events :: "event list" where
  "example_events =
    [Line (example_line ''a'' 0 0 ''aaaaaaaaaaaaaaaaaaaaaaaaa'' INFO),
     Line (example_line ''a'' 1 1 ''b;'' INFO),
     Line (example_line ''b'' 0 1 ''x;'' WARN),
     Line (example_line ''a'' 2 2 ''c;'' INFO),
     Line (example_line ''a'' 3 3 ''d;'' INFO),
     Line (example_line ''a'' 4 40 ''e;'' ERROR),
     Line (example_line ''a'' 5 41 ''f;'' INFO),
     Tick ''b'' 50,
     Stop ''b'',
     Stop ''a'']"


text \<open>
  An example index and example providers, for the concrete instances below: the four
  chunks of the example stream with one-dimensional embeddings, an error threshold of 3
  (only \<^verbatim>\<open>ERROR\<close> exceeds it), and the negated distance as similarity.
\<close>

definition example_chunk :: Chunk where
  "example_chunk = \<lparr>container_chunk = ''a'', seq_chunk = 0, text_chunk = ''aaaaaaaaaaaaaaaaaaaaaaaaa'',
     first_seq = 0, last_seq = 0, time_range = (0, 0), severity = 2, line_count = 1\<rparr>"

definition example_upserts :: "(Chunk \<times> int) list" where
  "example_upserts = zip (map snd (snd (ingest example_config example_events))) [10, 4, 7, 1]"

definition example_index :: "int VectorIndex" where
  "example_index = upsert_all 3 example_upserts empty_index"

definition example_similarity :: "int \<Rightarrow> int \<Rightarrow> int" where
  "example_similarity q e = - \<bar>q - e\<bar>"

definition example_providers :: "(int, int) providers" where
  "example_providers =
    \<lparr>embed = (\<lambda>question. Some 5),
     rerank = (\<lambda>question texts.
        Some (DAList.update 0 40 (DAList.update 2 90 DAList.empty))),
     generate = (\<lambda>question context. Some (''Seen: '' @ context))\<rparr>"

definition example_request :: QueryRequest where
  "example_request = queryLogs ''a'' ''What errors occurred?''"

section \<open>Facts about the page\<close>

lemma findIndex_ge_m1: "- 1 \<le> findIndex P xs"
  by (induction xs) (auto simp: Let_def)

lemma findIndex_neg_iff: "findIndex P xs < 0 \<longleftrightarrow> (\<forall>x\<in>set xs. \<not> P x)"
  by (induction xs) (auto simp: Let_def)

lemma findIndex_found:
  "0 \<le> findIndex P xs \<Longrightarrow>
     nat (findIndex P xs) < length xs \<and> P (xs ! nat (findIndex P xs)) \<and>
     (\<forall>j < nat (findIndex P xs). \<not> P (xs ! j))"
proof (induction xs)
  case Nil
  then show ?case by simp
next
  case (Cons x xs)
  show ?case
  proof (cases "P x")
    case True
    then show ?thesis by simp
  next
    case False
    with Cons.prems have nn: "0 \<le> findIndex P xs"
      by (simp add: Let_def split: if_splits)
    with False have eq: "findIndex P (x # xs) = findIndex P xs + 1"
      by (simp add: Let_def)
    from nn have n: "nat (findIndex P xs + 1) = Suc (nat (findIndex P xs))"
      by simp
    from Cons.IH [OF nn] False show ?thesis
      unfolding eq n by (auto simp: nth_Cons split: nat.splits)
  qed
qed

lemma find_first:
  "(\<forall>x\<in>set pre. \<not> P x) \<Longrightarrow> P y \<Longrightarrow> find P (pre @ y # post) = Some y"
  by (induction pre) auto

lemma find_Some_member: "find P xs = Some x \<Longrightarrow> x \<in> set xs \<and> P x"
  by (induction xs) (auto split: if_splits)

lemma find_None_all: "(\<forall>x\<in>set xs. \<not> P x) \<Longrightarrow> find P xs = None"
  by (simp add: find_None_iff)

lemma find_nth_first:
  "i < length xs \<Longrightarrow> P (xs ! i) \<Longrightarrow> (\<forall>j<i. \<not> P (xs ! j)) \<Longrightarrow> find P xs = Some (xs ! i)"
proof (induction xs arbitrary: i)
  case Nil
  then show ?case by simp
next
  case (Cons x xs)
  show ?case
  proof (cases i)
    case 0
    with Cons.prems show ?thesis by simp
  next
    case (Suc k)
    from Cons.prems(3) Suc have "\<not> P x" by force
    moreover from Cons.prems Suc have "find P xs = Some (xs ! k)"
      by (intro Cons.IH) auto
    ultimately show ?thesis using Suc by simp
  qed
qed

lemma find_append_cases:
  "find P (xs @ ys) = (case find P xs of None \<Rightarrow> find P ys | Some x \<Rightarrow> Some x)"
  by (induction xs) auto

lemma find_update_other:
  "i < length xs \<Longrightarrow> \<not> Q (xs ! i) \<Longrightarrow> \<not> Q y \<Longrightarrow> find Q (xs[i := y]) = find Q xs"
proof (induction xs arbitrary: i)
  case Nil
  then show ?case by simp
next
  case (Cons x xs)
  then show ?case by (cases i) auto
qed

lemma handleSendMessage_Some_found:
  assumes "\<exists>l\<in>set prev. containerId l = id_container sel"
  shows "\<exists>i<length prev. containerId (prev ! i) = id_container sel \<and>
           (\<forall>j<i. containerId (prev ! j) \<noteq> id_container sel) \<and>
           handleSendMessage (Some sel) clk m prev =
             prev[i := (prev ! i)\<lparr>messages := messages (prev ! i) @ [userMessage clk m, botMessage clk m]\<rparr>]"
proof -
  let ?P = "\<lambda>log. containerId log = id_container sel"
  from assms have "\<not> findIndex ?P prev < 0"
    by (simp add: findIndex_neg_iff)
  then have nn: "0 \<le> findIndex ?P prev" by simp
  from findIndex_found [OF nn] nn show ?thesis
    by (intro exI [of _ "nat (findIndex ?P prev)"]) (simp add: handleSendMessage_def Let_def)
qed

lemma handleSendMessage_Some_fresh:
  assumes "\<forall>l\<in>set prev. containerId l \<noteq> id_container sel"
  shows "handleSendMessage (Some sel) clk m prev =
           prev @ [\<lparr>containerId = id_container sel, messages = [userMessage clk m, botMessage clk m]\<rparr>]"
proof -
  from assms have "findIndex (\<lambda>log. containerId log = id_container sel) prev < 0"
    by (simp add: findIndex_neg_iff)
  then show ?thesis
    by (simp add: handleSendMessage_def Let_def)
qed

lemma filter_update_other:
  "i < length xs \<Longrightarrow> \<not> Q (xs ! i) \<Longrightarrow> \<not> Q y \<Longrightarrow> filter Q (xs[i := y]) = filter Q xs"
proof (induction xs arbitrary: i)
  case Nil
  then show ?case by simp
next
  case (Cons x xs)
  then show ?case by (cases i) auto
qed

lemma handleSendMessage_frame:
  "filter (\<lambda>l. containerId l \<noteq> id_container sel) (handleSendMessage (Some sel) clk m prev) =
   filter (\<lambda>l. containerId l \<noteq> id_container sel) prev"
proof (cases "\<exists>l\<in>set prev. containerId l = id_container sel")
  case True
  from handleSendMessage_Some_found [OF True, of clk m] obtain i where
    i: "i < length prev" "containerId (prev ! i) = id_container sel"
    and eq: "handleSendMessage (Some sel) clk m prev =
             prev[i := (prev ! i)\<lparr>messages := messages (prev ! i) @ [userMessage clk m, botMessage clk m]\<rparr>]"
    by blast
  show ?thesis
    unfolding eq using i by (intro filter_update_other) simp_all
next
  case False
  then have "\<forall>l\<in>set prev. containerId l \<noteq> id_container sel" by blast
  from handleSendMessage_Some_fresh [OF this] show ?thesis by simp
qed

lemma currentMessages_after_send:
  "currentMessages (Some sel) (handleSendMessage (Some sel) clk m prev) =
   currentMessages (Some sel) prev @ [userMessage clk m, botMessage clk m]"
proof (cases "\<exists>l\<in>set prev. containerId l = id_container sel")
  case True
  let ?P = "\<lambda>log. containerId log = id_container sel"
  from handleSendMessage_Some_found [OF True, of clk m] obtain i where
    i: "i < length prev" "?P (prev ! i)" "\<forall>j<i. \<not> ?P (prev ! j)"
    and eq: "handleSendMessage (Some sel) clk m prev =
             prev[i := (prev ! i)\<lparr>messages := messages (prev ! i) @ [userMessage clk m, botMessage clk m]\<rparr>]"
    by blast
  have old: "find ?P prev = Some (prev ! i)"
    using i by (intro find_nth_first) auto
  have new: "find ?P (handleSendMessage (Some sel) clk m prev) =
        Some ((prev ! i)\<lparr>messages := messages (prev ! i) @ [userMessage clk m, botMessage clk m]\<rparr>)"
  proof -
    let ?ys = "prev[i := (prev ! i)\<lparr>messages := messages (prev ! i) @ [userMessage clk m, botMessage clk m]\<rparr>]"
    have "find ?P ?ys = Some (?ys ! i)"
      using i by (intro find_nth_first) (auto simp: nth_list_update)
    then show ?thesis using i eq by simp
  qed
  show ?thesis by (simp add: currentMessages_def old new)
next
  case False
  then have none: "\<forall>l\<in>set prev. containerId l \<noteq> id_container sel" by blast
  then have "find (\<lambda>log. containerId log = id_container sel) prev = None"
    by (simp add: find_None_iff)
  with handleSendMessage_Some_fresh [OF none, of clk m] none show ?thesis
    by (simp add: currentMessages_def find_append_cases)
qed

lemma currentMessages_other_after_send:
  assumes "id_container other \<noteq> id_container sel"
  shows "currentMessages (Some other) (handleSendMessage (Some sel) clk m prev) =
   currentMessages (Some other) prev"
proof (cases "\<exists>l\<in>set prev. containerId l = id_container sel")
  case True
  from handleSendMessage_Some_found [OF True, of clk m] obtain i where
    i: "i < length prev" "containerId (prev ! i) = id_container sel"
    and eq: "handleSendMessage (Some sel) clk m prev =
             prev[i := (prev ! i)\<lparr>messages := messages (prev ! i) @ [userMessage clk m, botMessage clk m]\<rparr>]"
    by blast
  have "find (\<lambda>log. containerId log = id_container other) (handleSendMessage (Some sel) clk m prev) =
        find (\<lambda>log. containerId log = id_container other) prev"
    unfolding eq using i assms by (intro find_update_other) simp_all
  then show ?thesis by (simp add: currentMessages_def)
next
  case False
  then have none: "\<forall>l\<in>set prev. containerId l \<noteq> id_container sel" by blast
  from handleSendMessage_Some_fresh [OF none, of clk m] assms show ?thesis
    by (simp add: currentMessages_def find_append_cases split: option.splits)
qed

section \<open>Facts about the Log Chunker\<close>

lemma non_overlap_texts_append:
  "non_overlap_texts cfg prev (cs @ ds) =
     non_overlap_texts cfg prev cs @
     non_overlap_texts cfg (if cs = [] then prev else Some (text_chunk (last cs))) ds"
  by (induction cs arbitrary: prev) auto

lemma drop_overlap_make_chunk:
  "drop (length (overlap_prefix cfg (previous_text st))) (text_chunk (make_chunk cfg cid st)) =
     buffer_text (buffer st)"
  by (simp add: make_chunk_def)

lemma buffer_text_Nil [simp]: "buffer_text [] = []"
  by (simp add: buffer_text_def)

lemma buffer_text_append: "buffer_text (xs @ ys) = buffer_text xs @ buffer_text ys"
  by (simp add: buffer_text_def)

lemma chunker_step_cases:
  assumes "chunker_step cfg st ev = (st', new)"
  obtains (keep) "new = []" "previous_text st' = previous_text st" "next_seq st' = next_seq st"
      "buffer st' = buffer st @ lines_of (event_container ev) [ev]"
    | (emitted) trg where
      "new = [(trg, make_chunk cfg (event_container ev)
                 (st\<lparr>buffer := buffer st @ lines_of (event_container ev) [ev]\<rparr>))]"
      "buffer st' = []"
      "previous_text st' = Some (text_chunk (make_chunk cfg (event_container ev)
                 (st\<lparr>buffer := buffer st @ lines_of (event_container ev) [ev]\<rparr>)))"
      "next_seq st' = Suc (next_seq st)"
      "buffer st @ lines_of (event_container ev) [ev] \<noteq> []"
      "trg = ForcedFlush \<longleftrightarrow> (\<exists>cid. ev = Stop cid)"
  using assms
  by (cases ev) (auto simp: emit_def fired_def split: option.splits if_splits)


lemma lines_of_single:
  "lines_of cid [ev] = (if event_container ev = cid then lines_of (event_container ev) [ev] else [])"
  by (cases ev) auto

lemma lines_of_Cons: "lines_of cid (ev # evs) = lines_of cid [ev] @ lines_of cid evs"
  by (cases ev) auto

lemma lines_of_append: "lines_of cid (evs @ evs') = lines_of cid evs @ lines_of cid evs'"
  by (induction cid evs rule: lines_of.induct) auto

lemma chunks_of_append: "chunks_of cid (xs @ ys) = chunks_of cid xs @ chunks_of cid ys"
  by (simp add: chunks_of_def)

lemma chunker_step_chunks_of:
  assumes "chunker_step cfg st ev = (st', new)"
  shows "chunks_of cid new = (if event_container ev = cid then map snd new else [])"
  using assms by (cases rule: chunker_step_cases) (auto simp: chunks_of_def make_chunk_def)

lemma chunker_step_reconstruct:
  assumes "chunker_step cfg st ev = (st', new)"
  shows "concat (non_overlap_texts cfg (previous_text st) (map snd new)) @ buffer_text (buffer st') =
           buffer_text (buffer st) @ buffer_text (lines_of (event_container ev) [ev])"
  using assms
proof (cases rule: chunker_step_cases)
  case keep
  then show ?thesis by (simp add: buffer_text_append)
next
  case (emitted trg)
  then show ?thesis
    by (simp add: make_chunk_def buffer_text_append)
qed

lemma chunker_step_previous:
  assumes "chunker_step cfg st ev = (st', new)"
  shows "previous_text st' = (if new = [] then previous_text st else Some (text_chunk (last (map snd new))))"
  using assms by (cases rule: chunker_step_cases) auto

lemma ingest_from_reconstruct:
  "ingest_from cfg sts evs = (sts', out) \<Longrightarrow>
     concat (non_overlap_texts cfg (previous_text (sts cid)) (chunks_of cid out))
       @ buffer_text (buffer (sts' cid)) =
     buffer_text (buffer (sts cid)) @ buffer_text (lines_of cid evs)"
proof (induction evs arbitrary: sts sts' out)
  case Nil
  then show ?case by (simp add: chunks_of_def buffer_text_def)
next
  case (Cons ev evs)
  obtain st' new where step: "chunker_step cfg (sts (event_container ev)) ev = (st', new)"
    by (cases "chunker_step cfg (sts (event_container ev)) ev")
  obtain sts2 rest where run: "ingest_from cfg (sts (event_container ev := st')) evs = (sts2, rest)"
    by (cases "ingest_from cfg (sts (event_container ev := st')) evs")
  from Cons.prems step run have out: "out = new @ rest" and sts': "sts' = sts2"
    by simp_all
  note IH = Cons.IH [OF run]
  show ?case
  proof (cases "event_container ev = cid")
    case False
    then have "chunks_of cid out = chunks_of cid rest"
      using chunker_step_chunks_of [OF step, of cid] by (simp add: out chunks_of_append)
    moreover from False have "lines_of cid (ev # evs) = lines_of cid evs"
      using lines_of_Cons [of cid ev evs] lines_of_single [of cid ev] by simp
    ultimately show ?thesis using IH False by (simp add: sts')
  next
    case True
    have co: "chunks_of cid out = map snd new @ chunks_of cid rest"
      using chunker_step_chunks_of [OF step, of cid] True by (simp add: out chunks_of_append)
    have prev: "previous_text st' =
        (if map snd new = [] then previous_text (sts cid) else Some (text_chunk (last (map snd new))))"
      using chunker_step_previous [OF step] True by simp
    have one: "concat (non_overlap_texts cfg (previous_text (sts cid)) (map snd new)) @ buffer_text (buffer st') =
           buffer_text (buffer (sts cid)) @ buffer_text (lines_of cid [ev])"
      using chunker_step_reconstruct [OF step] True by simp
    have rest: "concat (non_overlap_texts cfg (previous_text st') (chunks_of cid rest))
       @ buffer_text (buffer (sts' cid)) = buffer_text (buffer st') @ buffer_text (lines_of cid evs)"
      using IH True by (simp add: sts')
    have "concat (non_overlap_texts cfg (previous_text (sts cid)) (chunks_of cid out))
       @ buffer_text (buffer (sts' cid)) =
       concat (non_overlap_texts cfg (previous_text (sts cid)) (map snd new)) @
       (concat (non_overlap_texts cfg (previous_text st') (chunks_of cid rest)) @ buffer_text (buffer (sts' cid)))"
      unfolding co non_overlap_texts_append prev by simp
    also have "\<dots> = (concat (non_overlap_texts cfg (previous_text (sts cid)) (map snd new)) @ buffer_text (buffer st'))
        @ buffer_text (lines_of cid evs)"
      unfolding rest by simp
    also have "\<dots> = buffer_text (buffer (sts cid)) @ buffer_text (lines_of cid (ev # evs))"
      unfolding one using lines_of_Cons [of cid ev evs] by (simp add: buffer_text_append)
    finally show ?thesis .
  qed
qed

lemma ingest_from_first_chunk:
  "ingest_from cfg sts evs = (sts', out) \<Longrightarrow> chunks_of cid out = c # cs \<Longrightarrow>
     text_chunk c = overlap_prefix cfg (previous_text (sts cid)) @
        buffer_text (take (line_count c) (buffer (sts cid) @ lines_of cid evs)) \<and>
     0 < line_count c \<and> line_count c \<le> length (buffer (sts cid) @ lines_of cid evs)"
proof (induction evs arbitrary: sts sts' out)
  case Nil
  then show ?case by (simp add: chunks_of_def)
next
  case (Cons ev evs)
  obtain st' new where step: "chunker_step cfg (sts (event_container ev)) ev = (st', new)"
    by (cases "chunker_step cfg (sts (event_container ev)) ev")
  obtain sts2 rest where run: "ingest_from cfg (sts (event_container ev := st')) evs = (sts2, rest)"
    by (cases "ingest_from cfg (sts (event_container ev := st')) evs")
  from Cons.prems step run have out: "out = new @ rest" and sts': "sts' = sts2"
    by simp_all
  note IH = Cons.IH [OF run]
  show ?case
  proof (cases "event_container ev = cid")
    case False
    then have "chunks_of cid rest = c # cs"
      using chunker_step_chunks_of [OF step, of cid] Cons.prems(2) by (simp add: out chunks_of_append)
    moreover from False have "lines_of cid (ev # evs) = lines_of cid evs"
      using lines_of_Cons [of cid ev evs] lines_of_single [of cid ev] by simp
    ultimately show ?thesis using IH False by simp
  next
    case True
    have co: "chunks_of cid out = map snd new @ chunks_of cid rest"
      using chunker_step_chunks_of [OF step, of cid] True by (simp add: out chunks_of_append)
    have l: "lines_of cid (ev # evs) = lines_of cid [ev] @ lines_of cid evs"
      by (rule lines_of_Cons)
    from step show ?thesis
    proof (cases rule: chunker_step_cases)
      case keep
      with co Cons.prems(2) have "chunks_of cid rest = c # cs" by simp
      from IH [OF this] keep True show ?thesis by (simp add: l)
    next
      case (emitted trg)
      with co Cons.prems(2) True
      have c: "c = make_chunk cfg cid ((sts cid)\<lparr>buffer := buffer (sts cid) @ lines_of cid [ev]\<rparr>)"
        by simp
      with emitted True show ?thesis
        by (simp add: make_chunk_def l)
    qed
  qed
qed

lemma ingest_from_append:
  "ingest_from cfg sts (evs @ evs') =
     (case ingest_from cfg sts evs of (s1, o1) \<Rightarrow>
        (case ingest_from cfg s1 evs' of (s2, o2) \<Rightarrow> (s2, o1 @ o2)))"
  by (induction evs arbitrary: sts) (auto split: prod.splits)

lemma stop_empties_buffer:
  "buffer (fst (chunker_step cfg st (Stop cid))) = []"
  by (simp add: emit_def)

lemma ingest_stop_buffer:
  "buffer (fst (ingest cfg (evs @ [Stop cid])) cid) = []"
  by (simp add: ingest_def ingest_from_append emit_def split: prod.splits)

lemma initial_chunker_fields:
  "buffer initial_chunker = []" "previous_text initial_chunker = None"
  "next_seq initial_chunker = 0"
  by (simp_all add: initial_chunker_def)

lemma example_run:
  "snd (ingest example_config example_events) =
    [(Size, \<lparr>container_chunk = ''a'', seq_chunk = 0, text_chunk = ''aaaaaaaaaaaaaaaaaaaaaaaaa'',
        first_seq = 0, last_seq = 0, time_range = (0, 0), severity = 2, line_count = 1\<rparr>),
     (LineCount, \<lparr>container_chunk = ''a'', seq_chunk = 1, text_chunk = ''aaaab;c;d;'',
        first_seq = 1, last_seq = 3, time_range = (1, 3), severity = 2, line_count = 3\<rparr>),
     (ForcedFlush, \<lparr>container_chunk = ''b'', seq_chunk = 0, text_chunk = ''x;'',
        first_seq = 0, last_seq = 0, time_range = (1, 1), severity = 3, line_count = 1\<rparr>),
     (ForcedFlush, \<lparr>container_chunk = ''a'', seq_chunk = 2, text_chunk = ''c;d;e;f;'',
        first_seq = 4, last_seq = 5, time_range = (40, 41), severity = 4, line_count = 2\<rparr>)]"
  by code_simp

text \<open>
  The floor at work: a chunk that is not a forced flush has at least \<^verbatim>\<open>min_chunk_size\<close>
  characters.
\<close>

lemma chunker_step_floor:
  assumes "chunker_step cfg st ev = (st', new)" and "(trg, c) \<in> set new"
    and "trg \<noteq> ForcedFlush"
  shows "min_chunk_size cfg \<le> length (text_chunk c)"
  using assms
  by (cases ev)
    (auto simp: emit_def fired_def reached_floor_def make_chunk_def
      split: option.splits if_splits)

lemma ingest_from_floor:
  "ingest_from cfg sts evs = (sts', out) \<Longrightarrow> (trg, c) \<in> set out \<Longrightarrow> trg \<noteq> ForcedFlush \<Longrightarrow>
     min_chunk_size cfg \<le> length (text_chunk c)"
proof (induction evs arbitrary: sts sts' out)
  case Nil
  then show ?case by simp
next
  case (Cons ev evs)
  obtain st' new where step: "chunker_step cfg (sts (event_container ev)) ev = (st', new)"
    by (cases "chunker_step cfg (sts (event_container ev)) ev")
  obtain sts2 rest where run: "ingest_from cfg (sts (event_container ev := st')) evs = (sts2, rest)"
    by (cases "ingest_from cfg (sts (event_container ev := st')) evs")
  from Cons.prems(1) step run have "out = new @ rest"
    by simp
  with Cons.prems(2) consider "(trg, c) \<in> set new" | "(trg, c) \<in> set rest"
    by auto
  then show ?case
  proof cases
    case 1
    from chunker_step_floor [OF step 1 Cons.prems(3)] show ?thesis .
  next
    case 2
    from Cons.IH [OF run 2 Cons.prems(3)] show ?thesis .
  qed
qed

section \<open>Facts about the Vector Index\<close>






section \<open>Facts about the Retriever\<close>

lemma mset_insert_desc: "mset (insert_desc x xs) = add_mset x (mset xs)"
  by (induction xs) auto

lemma mset_rank_desc: "mset (rank_desc xs) = mset xs"
  unfolding rank_desc_def by (induction xs) (auto simp: mset_insert_desc)

lemma set_rank_desc: "set (rank_desc xs) = set xs"
  using mset_rank_desc [of xs] by (metis set_mset_mset)


lemma length_rank_desc: "length (rank_desc xs) = length xs"
  using mset_rank_desc [of xs] by (metis size_mset)





lemma search_scoped:
  assumes "(ic, s) \<in> set (search sim idx coll q cid limit)"
  shows "container_chunk (chunk_of ic) = cid \<and> ic \<in> set (entries idx coll) \<and> s = sim q (embedding ic)"
proof -
  from assms have "(ic, s) \<in> set (rank_desc (map (\<lambda>ic. (ic, sim q (embedding ic)))
       (filter (\<lambda>ic. container_chunk (chunk_of ic) = cid) (entries idx coll))))"
    unfolding search_def by (rule in_set_takeD)
  then show ?thesis
    by (auto simp: set_rank_desc)
qed


lemma stage1_refs:
  "map chunk_ref (stage1 cfg sim idx coll q cid) =
     map fst (search sim idx coll q cid (nat (initial_k cfg)))"
  by (simp add: stage1_def comp_def split_def)


lemma pick_refs:
  "map chunk_ref (pick cands picks) =
     map (\<lambda>i. chunk_ref (cands ! i))
       (filter (\<lambda>i. i < length cands) (map fst (DAList.impl_of picks)))"
proof -
  have "map chunk_ref (map (\<lambda>(i, r). (cands ! i)\<lparr>relevance := Some r\<rparr>)
          (filter (\<lambda>(i, r). i < length cands) ps)) =
        map (\<lambda>i. chunk_ref (cands ! i)) (filter (\<lambda>i. i < length cands) (map fst ps))"
    for ps :: "(nat \<times> 'b) list"
    by (induction ps) auto
  then show ?thesis
    by (simp only: pick_def)
qed

lemma pick_subset: "set (map chunk_ref (pick cands picks)) \<subseteq> set (map chunk_ref cands)"
  unfolding pick_refs by auto




lemma retrieve_Inr:
  assumes "retrieve cfg sim P coll idx req = Inr out"
  obtains q where "k_in_bounds cfg req" "embed P (question_req req) = Some q"
    "out = stage2 cfg P (question_req req) (nat (requested_k cfg req))
             (stage1 cfg sim idx coll q (container_id_req req))"
  using assms by (auto simp: retrieve_def split: if_splits option.splits)

lemma stage1_scoped:
  assumes "c \<in> set (stage1 cfg sim idx coll q cid)"
  shows "container_chunk (chunk_of (chunk_ref c)) = cid \<and> chunk_ref c \<in> set (entries idx coll)"
proof -
  from assms have "chunk_ref c \<in> set (map chunk_ref (stage1 cfg sim idx coll q cid))"
    by simp
  then obtain s where "(chunk_ref c, s) \<in> set (search sim idx coll q cid (nat (initial_k cfg)))"
    unfolding stage1_refs by auto
  from search_scoped [OF this] show ?thesis by simp
qed

lemma stage2_subset_unconditional:
  "set (map chunk_ref (stage2 cfg P q_text n cands)) \<subseteq> set (map chunk_ref cands)"
proof -
  have "set (map chunk_ref (take n cands)) \<subseteq> set (map chunk_ref cands)"
    using set_take_subset [of n cands] by auto
  moreover have "set (map chunk_ref (take n (pick cands picks))) \<subseteq> set (map chunk_ref cands)" for picks
    using set_take_subset [of n "pick cands picks"] pick_subset [of cands picks] by auto
  ultimately show ?thesis
    by (auto simp: stage2_def split: option.splits)
qed

lemma retrieve_scoped:
  assumes "retrieve cfg sim P coll idx req = Inr out" and "c \<in> set out"
  shows "container_chunk (chunk_of (chunk_ref c)) = container_id_req req"
proof -
  from assms(1) obtain q where
    out: "out = stage2 cfg P (question_req req) (nat (requested_k cfg req))
             (stage1 cfg sim idx coll q (container_id_req req))"
    by (rule retrieve_Inr)
  from assms(2) have "chunk_ref c \<in> set (map chunk_ref out)" by simp
  with stage2_subset_unconditional [of cfg P "question_req req" "nat (requested_k cfg req)"
      "stage1 cfg sim idx coll q (container_id_req req)"]
  have "chunk_ref c \<in> set (map chunk_ref (stage1 cfg sim idx coll q (container_id_req req)))"
    unfolding out by blast
  then obtain c' where "c' \<in> set (stage1 cfg sim idx coll q (container_id_req req))"
    "chunk_ref c' = chunk_ref c" by auto
  with stage1_scoped [of c'] show ?thesis by simp
qed

lemma example_picks:
  "DAList.impl_of (DAList.update 0 40 (DAList.update 2 90 DAList.empty)) =
     [(2 :: nat, 90 :: int), (0, 40)]"
  by (simp add: DAList.update.rep_eq DAList.empty.rep_eq)

lemma example_stage1:
  "stage1 default_retriever_config example_similarity example_index Approximate 5 ''a'' =
    [\<lparr>chunk_ref = indexed 3 (snd (snd (ingest example_config example_events) ! 1)) 4,
       similarity = - 1, relevance = None\<rparr>,
     \<lparr>chunk_ref = indexed 3 (snd (snd (ingest example_config example_events) ! 3)) 1,
       similarity = - 4, relevance = None\<rparr>,
     \<lparr>chunk_ref = indexed 3 example_chunk 10, similarity = - 5, relevance = None\<rparr>]"
  unfolding example_run
  by (simp add: stage1_def search_def rank_desc_def entries_def example_index_def
      example_upserts_def example_run upsert_def empty_index_def indexed_def chunk_id_def
      qualifies_def example_chunk_def example_similarity_def default_retriever_config_def)

lemma example_retrieve:
  "retrieve default_retriever_config example_similarity example_providers Approximate
      example_index example_request =
    Inr [\<lparr>chunk_ref = indexed 3 example_chunk (10 :: int), similarity = - 5 :: int,
           relevance = Some 90\<rparr>,
         \<lparr>chunk_ref = indexed 3 (snd (snd (ingest example_config example_events) ! 1)) 4,
           similarity = - 1, relevance = Some 40\<rparr>]"
proof -
  have q: "question_req example_request = ''What errors occurred?''"
    and c: "container_id_req example_request = ''a''"
    and k: "k_in_bounds default_retriever_config example_request"
      "nat (requested_k default_retriever_config example_request) = 8"
    by (simp_all add: example_request_def queryLogs_def k_in_bounds_def requested_k_def
        default_retriever_config_def)
  have e: "embed example_providers ''What errors occurred?'' = Some 5"
    and r: "rerank example_providers ''What errors occurred?'' texts =
        Some (DAList.update 0 40 (DAList.update 2 90 DAList.empty))" for texts
    by (simp_all add: example_providers_def)
  have u: "use_reranking default_retriever_config"
    by (simp add: default_retriever_config_def)
  show ?thesis
    unfolding retrieve_def q c
    by (simp add: k e stage2_def u r pick_def example_picks example_stage1)
qed

lemma fit_budget_subset: "set (fit_budget budget cs) \<subseteq> set cs"
proof (induction budget cs rule: fit_budget.induct)
  case (1 budget cs)
  show ?case
  proof (cases "cs = [] \<or> length (concat (map candidate_text cs)) \<le> budget")
    case True
    then show ?thesis by (subst fit_budget.simps) simp
  next
    case False
    then have "fit_budget budget cs = fit_budget budget (butlast cs)"
      by (subst fit_budget.simps) simp
    moreover from False "1.IH" have "set (fit_budget budget (butlast cs)) \<subseteq> set (butlast cs)"
      by simp
    ultimately show ?thesis
      using in_set_butlastD [of _ cs] by auto
  qed
qed

lemma answer_query_scoped:
  assumes "answer_query cfg sim P coll budget idx req = Inr r" and "c \<in> set (sources r)"
  shows "container_chunk (chunk_of (chunk_ref c)) = container_id_req req"
proof -
  from assms obtain out where out: "retrieve cfg sim P coll idx req = Inr out"
    and c: "c \<in> set (fit_budget budget out)"
    by (auto simp: answer_query_def split: sum.splits list.splits option.splits)
  from c fit_budget_subset [of budget out] have "c \<in> set out"
    by blast
  with out show ?thesis
    by (rule retrieve_scoped)
qed

section \<open>The claims about the front end and the scope of retrieval\<close>

text \<open>
  C1. What is retrieved and shown for a container comes from that container only. The
  chat view of the selected container shows the messages of that container only: with no
  selection, or with no log entry of the selected container, the view is empty; otherwise
  it is exactly the message list of the first log entry whose \<^verbatim>\<open>containerId\<close> is the
  selected container's id (the only one, when the ids of the log are distinct), and every
  message shown comes from a log entry of the selected container. A search scoped to a
  container returns chunks of that container only, and so do the retrieval of a request
  and the sources cited in its answer.
\<close>

theorem currentMessages_scoped:
  "currentMessages None chatLogs = [] \<and>
   ((\<forall>l\<in>set chatLogs. containerId l \<noteq> id_container sel) \<longrightarrow>
      currentMessages (Some sel) chatLogs = []) \<and>
   (\<forall>pre l post. chatLogs = pre @ l # post \<and> containerId l = id_container sel \<and>
      (\<forall>l'\<in>set pre. containerId l' \<noteq> id_container sel) \<longrightarrow>
      currentMessages (Some sel) chatLogs = messages l) \<and>
   (\<forall>l\<in>set chatLogs. distinct (map containerId chatLogs) \<and> containerId l = id_container sel \<longrightarrow>
      currentMessages (Some sel) chatLogs = messages l) \<and>
   (\<forall>m\<in>set (currentMessages selected chatLogs).
      \<exists>c l. selected = Some c \<and> l \<in> set chatLogs \<and> containerId l = id_container c \<and>
        m \<in> set (messages l)) \<and>
   (\<forall>ic\<in>set (map fst (search sim idx coll q A limit)). container_chunk (chunk_of ic) = A) \<and>
   (\<forall>out. retrieve cfg sim P coll idx req = Inr out \<longrightarrow>
      (\<forall>c\<in>set out. container_chunk (chunk_of (chunk_ref c)) = container_id_req req)) \<and>
   (\<forall>r. answer_query cfg sim P coll budget idx req = Inr r \<longrightarrow>
      (\<forall>c\<in>set (sources r). container_chunk (chunk_of (chunk_ref c)) = container_id_req req))"
proof (intro conjI)
  show "\<forall>ic\<in>set (map fst (search sim idx coll q A limit)). container_chunk (chunk_of ic) = A"
    using search_scoped [of _ _ sim idx coll q A limit] by auto
  show "\<forall>out. retrieve cfg sim P coll idx req = Inr out \<longrightarrow>
      (\<forall>c\<in>set out. container_chunk (chunk_of (chunk_ref c)) = container_id_req req)"
    using retrieve_scoped by blast
  show "\<forall>r. answer_query cfg sim P coll budget idx req = Inr r \<longrightarrow>
      (\<forall>c\<in>set (sources r). container_chunk (chunk_of (chunk_ref c)) = container_id_req req)"
    using answer_query_scoped by blast
  show "currentMessages None chatLogs = []"
    by (simp add: currentMessages_def)
  show "(\<forall>l\<in>set chatLogs. containerId l \<noteq> id_container sel) \<longrightarrow>
      currentMessages (Some sel) chatLogs = []"
    by (auto simp: currentMessages_def dest: find_None_all [where P = "\<lambda>log. containerId log = id_container sel"])
  show "\<forall>pre l post. chatLogs = pre @ l # post \<and> containerId l = id_container sel \<and>
      (\<forall>l'\<in>set pre. containerId l' \<noteq> id_container sel) \<longrightarrow>
      currentMessages (Some sel) chatLogs = messages l"
    by (auto simp: currentMessages_def find_first)
  show "\<forall>l\<in>set chatLogs. distinct (map containerId chatLogs) \<and> containerId l = id_container sel \<longrightarrow>
      currentMessages (Some sel) chatLogs = messages l"
  proof (intro ballI impI)
    fix l
    assume l: "l \<in> set chatLogs"
      and h: "distinct (map containerId chatLogs) \<and> containerId l = id_container sel"
    from l obtain pre post where split: "chatLogs = pre @ l # post"
      by (auto simp: in_set_conv_decomp)
    with h have "\<forall>l'\<in>set pre. containerId l' \<noteq> id_container sel"
      by force
    with h show "currentMessages (Some sel) chatLogs = messages l"
      unfolding split by (simp add: currentMessages_def find_first)
  qed
  show "\<forall>m\<in>set (currentMessages selected chatLogs).
      \<exists>c l. selected = Some c \<and> l \<in> set chatLogs \<and> containerId l = id_container c \<and>
        m \<in> set (messages l)"
  proof
    fix m
    assume shown: "m \<in> set (currentMessages selected chatLogs)"
    then obtain c where c: "selected = Some c"
      by (cases selected) (simp_all add: currentMessages_def)
    with shown obtain l where
      l: "find (\<lambda>log. containerId log = id_container c) chatLogs = Some l"
      by (cases "find (\<lambda>log. containerId log = id_container c) chatLogs")
        (simp_all add: currentMessages_def)
    with shown c have m: "m \<in> set (messages l)"
      by (simp add: currentMessages_def)
    from find_Some_member [OF l] c m
    show "\<exists>c l. selected = Some c \<and> l \<in> set chatLogs \<and> containerId l = id_container c \<and>
        m \<in> set (messages l)"
      by blast
  qed
qed

theorem currentMessages_scoped_witness:
  "currentMessages (Some (mockContainers ! 1))
     [\<lparr>containerId = ''container-1'', messages = [userMessage example_clock ''ps'']\<rparr>,
      \<lparr>containerId = ''container-2'', messages = [userMessage example_clock ''top'', botMessage example_clock ''top'']\<rparr>]
   = [userMessage example_clock ''top'', botMessage example_clock ''top''] \<and>
   currentMessages (Some (mockContainers ! 2))
     [\<lparr>containerId = ''container-1'', messages = [userMessage example_clock ''ps'']\<rparr>,
      \<lparr>containerId = ''container-2'', messages = [userMessage example_clock ''top'', botMessage example_clock ''top'']\<rparr>]
   = [] \<and>
   map (\<lambda>ic. container_chunk (chunk_of ic)) (approximate example_index) = [''a'', ''a'', ''b'', ''a''] \<and>
   (case retrieve default_retriever_config example_similarity example_providers Approximate
      example_index example_request of
      Inl f \<Rightarrow> False
    | Inr out \<Rightarrow> map (\<lambda>c. container_chunk (chunk_of (chunk_ref c))) out = [''a'', ''a''])"
proof -
  let ?logs = "[\<lparr>containerId = ''container-1'', messages = [userMessage example_clock ''ps'']\<rparr>,
      \<lparr>containerId = ''container-2'', messages = [userMessage example_clock ''top'', botMessage example_clock ''top'']\<rparr>]"
  let ?out = "[\<lparr>chunk_ref = indexed 3 example_chunk (10 :: int), similarity = - 5 :: int,
                 relevance = Some 90\<rparr>,
               \<lparr>chunk_ref = indexed 3 (snd (snd (ingest example_config example_events) ! 1)) 4,
                 similarity = - 1, relevance = Some 40\<rparr>]"
  have "currentMessages (Some (mockContainers ! 1)) ?logs = messages (?logs ! 1)"
    using currentMessages_scoped [of ?logs "mockContainers ! 1" None,
        THEN conjunct2, THEN conjunct2, THEN conjunct2, THEN conjunct1, THEN bspec,
        of "?logs ! 1"]
    by (simp add: mockContainers_def)
  moreover have "currentMessages (Some (mockContainers ! 2)) ?logs = []"
    using currentMessages_scoped [of ?logs "mockContainers ! 2" None,
        THEN conjunct2, THEN conjunct1]
    by (simp add: mockContainers_def)
  ultimately have shown: "currentMessages (Some (mockContainers ! 1)) ?logs =
        [userMessage example_clock ''top'', botMessage example_clock ''top''] \<and>
      currentMessages (Some (mockContainers ! 2)) ?logs = []"
    by simp
  have held: "map (\<lambda>ic. container_chunk (chunk_of ic)) (approximate example_index) =
      [''a'', ''a'', ''b'', ''a'']"
    by (simp add: example_index_def example_upserts_def example_run upsert_def
        empty_index_def indexed_def chunk_id_def)
  have run: "retrieve default_retriever_config example_similarity example_providers Approximate
      example_index example_request = Inr ?out"
    by (rule example_retrieve)
  have req: "container_id_req example_request = ''a''"
    by (simp add: example_request_def queryLogs_def)
  note inst = currentMessages_scoped [where cfg = default_retriever_config
      and sim = example_similarity and P = example_providers and coll = Approximate
      and idx = example_index and req = example_request]
  from inst run req have "\<forall>c\<in>set ?out. container_chunk (chunk_of (chunk_ref c)) = ''a''"
    by (metis (no_types, lifting))
  then have "map (\<lambda>c. container_chunk (chunk_of (chunk_ref c))) ?out = [''a'', ''a'']"
    by simp
  with shown held show ?thesis
    unfolding run by simp
qed

text \<open>
  C8. With a container selected, \<^verbatim>\<open>handleSendMessage\<close> appends the user message and then
  the bot message to the (first) log entry of that container, keeping the entry's earlier
  messages in order, or adds a new entry holding the two messages when the container has
  none; the entries of every other container stay as they were, in the same order.
\<close>

theorem handleSendMessage_appends:
  "type_message (userMessage clk m) = User \<and> content (userMessage clk m) = m \<and>
   type_message (botMessage clk m) = Bot \<and>
   currentMessages (Some sel) (handleSendMessage (Some sel) clk m prev) =
     currentMessages (Some sel) prev @ [userMessage clk m, botMessage clk m] \<and>
   ((\<exists>l\<in>set prev. containerId l = id_container sel) \<longrightarrow>
      (\<exists>i<length prev. containerId (prev ! i) = id_container sel \<and>
         (\<forall>j<i. containerId (prev ! j) \<noteq> id_container sel) \<and>
         handleSendMessage (Some sel) clk m prev =
           prev[i := \<lparr>containerId = id_container sel,
                       messages = messages (prev ! i) @ [userMessage clk m, botMessage clk m]\<rparr>])) \<and>
   ((\<forall>l\<in>set prev. containerId l \<noteq> id_container sel) \<longrightarrow>
      handleSendMessage (Some sel) clk m prev =
        prev @ [\<lparr>containerId = id_container sel,
                  messages = [userMessage clk m, botMessage clk m]\<rparr>]) \<and>
   filter (\<lambda>l. containerId l \<noteq> id_container sel) (handleSendMessage (Some sel) clk m prev) =
     filter (\<lambda>l. containerId l \<noteq> id_container sel) prev \<and>
   (\<forall>other. id_container other \<noteq> id_container sel \<longrightarrow>
      currentMessages (Some other) (handleSendMessage (Some sel) clk m prev) =
        currentMessages (Some other) prev)"
proof (intro conjI)
  show "type_message (userMessage clk m) = User" "content (userMessage clk m) = m"
    by (simp_all add: userMessage_def)
  show "type_message (botMessage clk m) = Bot"
    by (simp add: botMessage_def)
  show "currentMessages (Some sel) (handleSendMessage (Some sel) clk m prev) =
     currentMessages (Some sel) prev @ [userMessage clk m, botMessage clk m]"
    by (rule currentMessages_after_send)
  show "(\<exists>l\<in>set prev. containerId l = id_container sel) \<longrightarrow>
      (\<exists>i<length prev. containerId (prev ! i) = id_container sel \<and>
         (\<forall>j<i. containerId (prev ! j) \<noteq> id_container sel) \<and>
         handleSendMessage (Some sel) clk m prev =
           prev[i := \<lparr>containerId = id_container sel,
                       messages = messages (prev ! i) @ [userMessage clk m, botMessage clk m]\<rparr>])"
  proof
    assume "\<exists>l\<in>set prev. containerId l = id_container sel"
    from handleSendMessage_Some_found [OF this, of clk m] obtain i where
      i: "i < length prev" "containerId (prev ! i) = id_container sel"
        "\<forall>j<i. containerId (prev ! j) \<noteq> id_container sel"
      and eq: "handleSendMessage (Some sel) clk m prev =
             prev[i := (prev ! i)\<lparr>messages := messages (prev ! i) @ [userMessage clk m, botMessage clk m]\<rparr>]"
      by blast
    have "(prev ! i)\<lparr>messages := messages (prev ! i) @ [userMessage clk m, botMessage clk m]\<rparr> =
          \<lparr>containerId = id_container sel,
           messages = messages (prev ! i) @ [userMessage clk m, botMessage clk m]\<rparr>"
      using i(2) by (cases "prev ! i") simp
    with i eq show "\<exists>i<length prev. containerId (prev ! i) = id_container sel \<and>
         (\<forall>j<i. containerId (prev ! j) \<noteq> id_container sel) \<and>
         handleSendMessage (Some sel) clk m prev =
           prev[i := \<lparr>containerId = id_container sel,
                       messages = messages (prev ! i) @ [userMessage clk m, botMessage clk m]\<rparr>]"
      by auto
  qed
  show "(\<forall>l\<in>set prev. containerId l \<noteq> id_container sel) \<longrightarrow>
      handleSendMessage (Some sel) clk m prev =
        prev @ [\<lparr>containerId = id_container sel,
                  messages = [userMessage clk m, botMessage clk m]\<rparr>]"
    using handleSendMessage_Some_fresh by blast
  show "filter (\<lambda>l. containerId l \<noteq> id_container sel) (handleSendMessage (Some sel) clk m prev) =
     filter (\<lambda>l. containerId l \<noteq> id_container sel) prev"
    by (rule handleSendMessage_frame)
  show "\<forall>other. id_container other \<noteq> id_container sel \<longrightarrow>
      currentMessages (Some other) (handleSendMessage (Some sel) clk m prev) =
        currentMessages (Some other) prev"
    using currentMessages_other_after_send by blast
qed

theorem handleSendMessage_appends_witness:
  "(\<exists>l\<in>set [\<lparr>containerId = ''container-1'', messages = [userMessage example_clock ''ps'']\<rparr>,
      \<lparr>containerId = ''container-2'', messages = [userMessage example_clock ''top'', botMessage example_clock ''top'']\<rparr>].
      containerId l = id_container (mockContainers ! 1)) \<and>
   currentMessages (Some (mockContainers ! 1))
    (handleSendMessage (Some (mockContainers ! 1)) example_clock ''df''
     [\<lparr>containerId = ''container-1'', messages = [userMessage example_clock ''ps'']\<rparr>,
      \<lparr>containerId = ''container-2'', messages = [userMessage example_clock ''top'', botMessage example_clock ''top'']\<rparr>])
   = [userMessage example_clock ''top'', botMessage example_clock ''top'', userMessage example_clock ''df'', botMessage example_clock ''df''] \<and>
   currentMessages (Some (mockContainers ! 0))
    (handleSendMessage (Some (mockContainers ! 1)) example_clock ''df''
     [\<lparr>containerId = ''container-1'', messages = [userMessage example_clock ''ps'']\<rparr>,
      \<lparr>containerId = ''container-2'', messages = [userMessage example_clock ''top'', botMessage example_clock ''top'']\<rparr>])
   = [userMessage example_clock ''ps''] \<and>
   handleSendMessage (Some (mockContainers ! 2)) example_clock ''df''
     [\<lparr>containerId = ''container-1'', messages = [userMessage example_clock ''ps'']\<rparr>]
   = [\<lparr>containerId = ''container-1'', messages = [userMessage example_clock ''ps'']\<rparr>,
      \<lparr>containerId = ''container-3'', messages = [userMessage example_clock ''df'', botMessage example_clock ''df'']\<rparr>]"
proof -
  let ?prev = "[\<lparr>containerId = ''container-1'', messages = [userMessage example_clock ''ps'']\<rparr>,
      \<lparr>containerId = ''container-2'', messages = [userMessage example_clock ''top'', botMessage example_clock ''top'']\<rparr>]"
  note found = handleSendMessage_appends [of example_clock "''df''" "mockContainers ! 1" ?prev]
  note fresh = handleSendMessage_appends [of example_clock "''df''" "mockContainers ! 2"
      "[\<lparr>containerId = ''container-1'', messages = [userMessage example_clock ''ps'']\<rparr>]"]
  have ex: "\<exists>l\<in>set ?prev. containerId l = id_container (mockContainers ! 1)"
    by (simp add: mockContainers_def)
  from found have "currentMessages (Some (mockContainers ! 1))
      (handleSendMessage (Some (mockContainers ! 1)) example_clock ''df'' ?prev) =
     currentMessages (Some (mockContainers ! 1)) ?prev @ [userMessage example_clock ''df'', botMessage example_clock ''df'']"
    by blast
  then have own: "currentMessages (Some (mockContainers ! 1))
      (handleSendMessage (Some (mockContainers ! 1)) example_clock ''df'' ?prev) =
     [userMessage example_clock ''top'', botMessage example_clock ''top'', userMessage example_clock ''df'', botMessage example_clock ''df'']"
    by (simp add: currentMessages_def mockContainers_def)
  have "id_container (mockContainers ! 0) \<noteq> id_container (mockContainers ! 1)"
    by (simp add: mockContainers_def)
  with found have "currentMessages (Some (mockContainers ! 0))
      (handleSendMessage (Some (mockContainers ! 1)) example_clock ''df'' ?prev) =
     currentMessages (Some (mockContainers ! 0)) ?prev"
    by blast
  then have other: "currentMessages (Some (mockContainers ! 0))
      (handleSendMessage (Some (mockContainers ! 1)) example_clock ''df'' ?prev) = [userMessage example_clock ''ps'']"
    by (simp add: currentMessages_def mockContainers_def)
  have "\<forall>l\<in>set [\<lparr>containerId = ''container-1'', messages = [userMessage example_clock ''ps'']\<rparr>].
          containerId l \<noteq> id_container (mockContainers ! 2)"
    by (simp add: mockContainers_def)
  with fresh have "handleSendMessage (Some (mockContainers ! 2)) example_clock ''df''
       [\<lparr>containerId = ''container-1'', messages = [userMessage example_clock ''ps'']\<rparr>] =
     [\<lparr>containerId = ''container-1'', messages = [userMessage example_clock ''ps'']\<rparr>] @
     [\<lparr>containerId = id_container (mockContainers ! 2),
       messages = [userMessage example_clock ''df'', botMessage example_clock ''df'']\<rparr>]"
    by blast
  then have new: "handleSendMessage (Some (mockContainers ! 2)) example_clock ''df''
       [\<lparr>containerId = ''container-1'', messages = [userMessage example_clock ''ps'']\<rparr>] =
     [\<lparr>containerId = ''container-1'', messages = [userMessage example_clock ''ps'']\<rparr>,
      \<lparr>containerId = ''container-3'', messages = [userMessage example_clock ''df'', botMessage example_clock ''df'']\<rparr>]"
    by (simp add: mockContainers_def)
  from ex own other new show ?thesis by blast
qed

text \<open>
  C9. With no container selected, \<^verbatim>\<open>handleSendMessage\<close> leaves \<^verbatim>\<open>chatLogs\<close> as it is,
  whatever the message.
\<close>

theorem handleSendMessage_no_selection:
  "handleSendMessage None clk m prev = prev"
  by (simp add: handleSendMessage_def)

text \<open>
  C10. The two groups of the sidebar partition the containers: a running container is in
  the running group and not in the stopped group, a container of any other status is in
  the stopped group and not in the running group, and the two groups together hold exactly
  the given containers, each as often as it was given.
\<close>

theorem sidebar_groups_partition:
  "(\<forall>c\<in>set containers. status c = ''running'' \<longrightarrow>
      c \<in> set (runningContainers containers) \<and> c \<notin> set (stoppedContainers containers)) \<and>
   (\<forall>c\<in>set containers. status c \<noteq> ''running'' \<longrightarrow>
      c \<in> set (stoppedContainers containers) \<and> c \<notin> set (runningContainers containers)) \<and>
   set (runningContainers containers) \<inter> set (stoppedContainers containers) = {} \<and>
   set (runningContainers containers) \<union> set (stoppedContainers containers) = set containers \<and>
   mset (runningContainers containers) + mset (stoppedContainers containers) = mset containers"
  by (auto simp: runningContainers_def stoppedContainers_def)

theorem sidebar_groups_partition_witness:
  "runningContainers mockContainers = take 3 mockContainers \<and>
   stoppedContainers mockContainers = drop 3 mockContainers \<and>
   mset (take 3 mockContainers) + mset (drop 3 mockContainers) = mset mockContainers"
  using sidebar_groups_partition [of mockContainers]
  by (simp add: runningContainers_def stoppedContainers_def mockContainers_def)

text \<open>
  C6. The query of the integration guide always carries \<^verbatim>\<open>k = 8\<close>, which lies between 1
  and the documented \<^verbatim>\<open>initial_k = 20\<close>; a request without \<^verbatim>\<open>k\<close> asks for the documented
  default, 8, which lies within the bound as well; a request for 0 or for 21 results is
  out of bounds and is rejected as a validation error.
\<close>

theorem queryLogs_k_in_bounds:
  "k_req (queryLogs cid q) = Some 8 \<and>
   container_id_req (queryLogs cid q) = cid \<and> question_req (queryLogs cid q) = q \<and>
   requested_k default_retriever_config (queryLogs cid q) = 8 \<and>
   k_in_bounds default_retriever_config (queryLogs cid q) \<and>
   initial_k default_retriever_config = 20 \<and>
   requested_k default_retriever_config (req\<lparr>k_req := None\<rparr>) = 8 \<and>
   k_in_bounds default_retriever_config (req\<lparr>k_req := None\<rparr>) \<and>
   \<not> k_in_bounds default_retriever_config (req\<lparr>k_req := Some 0\<rparr>) \<and>
   \<not> k_in_bounds default_retriever_config (req\<lparr>k_req := Some 21\<rparr>) \<and>
   retrieve default_retriever_config sim P coll idx (req\<lparr>k_req := Some 0\<rparr>) = Inl ValidationError \<and>
   retrieve default_retriever_config sim P coll idx (req\<lparr>k_req := Some 21\<rparr>) = Inl ValidationError"
  by (simp add: queryLogs_def requested_k_def k_in_bounds_def default_retriever_config_def
      retrieve_def)

section \<open>The claims about the Log Chunker\<close>

text \<open>
  C3. For every container, the texts of its emitted chunks, each without the overlap
  prefix taken from the chunk before it, concatenate to the container's line stream in
  order: together with what is still buffered they give all lines received so far, and
  once the container has stopped the chunks alone give the whole stream. The first chunk
  of a container carries no overlap prefix: its text is exactly the text of the first
  lines of the stream.
\<close>

theorem chunks_reconstruct_stream:
  "reconstruct cfg (chunks_of cid (snd (ingest cfg evs))) @
     buffer_text (buffer (fst (ingest cfg evs) cid)) = buffer_text (lines_of cid evs) \<and>
   reconstruct cfg (chunks_of cid (snd (ingest cfg (evs @ [Stop cid])))) =
     buffer_text (lines_of cid evs) \<and>
   (\<forall>c cs. chunks_of cid (snd (ingest cfg evs)) = c # cs \<longrightarrow>
      0 < line_count c \<and> line_count c \<le> length (lines_of cid evs) \<and>
      text_chunk c = buffer_text (take (line_count c) (lines_of cid evs)))"
proof (intro conjI allI impI)
  obtain sts out where run: "ingest_from cfg (\<lambda>cid. initial_chunker) evs = (sts, out)"
    by (cases "ingest_from cfg (\<lambda>cid. initial_chunker) evs")
  then have ing: "ingest cfg evs = (sts, out)"
    by (simp add: ingest_def)
  from ingest_from_reconstruct [OF run, of cid]
  show "reconstruct cfg (chunks_of cid (snd (ingest cfg evs))) @
     buffer_text (buffer (fst (ingest cfg evs) cid)) = buffer_text (lines_of cid evs)"
    by (simp add: ing reconstruct_def initial_chunker_fields)
  {
    fix c cs
    assume "chunks_of cid (snd (ingest cfg evs)) = c # cs"
    then have "chunks_of cid out = c # cs"
      by (simp add: ing)
    from ingest_from_first_chunk [OF run this]
    show "0 < line_count c" "line_count c \<le> length (lines_of cid evs)"
      "text_chunk c = buffer_text (take (line_count c) (lines_of cid evs))"
      by (simp_all add: initial_chunker_fields overlap_prefix_def)
  }
  obtain sts2 out2 where run2:
    "ingest_from cfg (\<lambda>cid. initial_chunker) (evs @ [Stop cid]) = (sts2, out2)"
    by (cases "ingest_from cfg (\<lambda>cid. initial_chunker) (evs @ [Stop cid])")
  then have ing2: "ingest cfg (evs @ [Stop cid]) = (sts2, out2)"
    by (simp add: ingest_def)
  have "buffer (sts2 cid) = []"
    using ingest_stop_buffer [of cfg evs cid] by (simp add: ing2)
  with ingest_from_reconstruct [OF run2, of cid]
  show "reconstruct cfg (chunks_of cid (snd (ingest cfg (evs @ [Stop cid])))) =
     buffer_text (lines_of cid evs)"
    by (simp add: ing2 reconstruct_def initial_chunker_fields lines_of_append)
qed

theorem chunks_reconstruct_stream_witness:
  "chunks_of ''a'' (snd (ingest example_config example_events)) \<noteq> [] \<and>
   reconstruct example_config (chunks_of ''a'' (snd (ingest example_config example_events))) =
     ''aaaaaaaaaaaaaaaaaaaaaaaaab;c;d;e;f;'' \<and>
   text_chunk (hd (chunks_of ''a'' (snd (ingest example_config example_events)))) =
     ''aaaaaaaaaaaaaaaaaaaaaaaaa''"
proof -
  let ?c1 = "\<lparr>container_chunk = ''a'', seq_chunk = 0, text_chunk = ''aaaaaaaaaaaaaaaaaaaaaaaaa'',
        first_seq = 0, last_seq = 0, time_range = (0, 0), severity = 2, line_count = 1\<rparr>"
  let ?c2 = "\<lparr>container_chunk = ''a'', seq_chunk = 1, text_chunk = ''aaaab;c;d;'',
        first_seq = 1, last_seq = 3, time_range = (1, 3), severity = 2, line_count = 3\<rparr>"
  let ?c3 = "\<lparr>container_chunk = ''a'', seq_chunk = 2, text_chunk = ''c;d;e;f;'',
        first_seq = 4, last_seq = 5, time_range = (40, 41), severity = 4, line_count = 2\<rparr>"
  note inst = chunks_reconstruct_stream [of example_config "''a''" example_events]
  have chunks: "chunks_of ''a'' (snd (ingest example_config example_events)) = ?c1 # [?c2, ?c3]"
    unfolding example_run by (simp add: chunks_of_def)
  have lines: "buffer_text (lines_of ''a'' example_events) = ''aaaaaaaaaaaaaaaaaaaaaaaaab;c;d;e;f;''"
    by code_simp
  have first: "buffer_text (take 1 (lines_of ''a'' example_events)) = ''aaaaaaaaaaaaaaaaaaaaaaaaa''"
    by code_simp
  have empty: "buffer (fst (ingest example_config example_events) ''a'') = []"
    by code_simp
  from inst chunks
  have "text_chunk ?c1 = buffer_text (take (line_count ?c1) (lines_of ''a'' example_events))"
    by blast
  then have t1: "text_chunk (hd (chunks_of ''a'' (snd (ingest example_config example_events)))) =
     ''aaaaaaaaaaaaaaaaaaaaaaaaa''"
    unfolding chunks using first by simp
  from inst have "reconstruct example_config (chunks_of ''a'' (snd (ingest example_config example_events))) @
     buffer_text (buffer (fst (ingest example_config example_events) ''a'')) =
     buffer_text (lines_of ''a'' example_events)"
    by blast
  then have r: "reconstruct example_config (chunks_of ''a'' (snd (ingest example_config example_events))) =
     ''aaaaaaaaaaaaaaaaaaaaaaaaab;c;d;e;f;''"
    unfolding empty lines by simp
  from chunks t1 r show ?thesis by simp
qed

section \<open>The claims about the Retriever\<close>



end
